theory Spec2Isabelle
  imports Complex_Main "HOL-Library.Type_Length"
begin

section \<open>The two optimisers of \<^verbatim>\<open>autodiffb.py\<close>\<close>

text \<open>
  The script defines two numeric procedures, \<^verbatim>\<open>gd\<close> (gradient descent with a decaying
  step size) and \<^verbatim>\<open>newton\<close> (Newton's method on the first derivative). Everything else in
  the script is plotting and example data.

  Both procedures are written against whatever arithmetic the initial point brings with
  it. The embedding keeps that: a point is a value of a type \<open>'a\<close> that has the operations
  the loop body uses (\<open>-\<close> and \<open>*\<close> for \<^verbatim>\<open>gd\<close>, \<open>-\<close> and \<open>/\<close> for \<^verbatim>\<open>newton\<close>), and a property
  that needs a law of arithmetic is proved for the types that have the law. The scalar
  case is modelled: the point, the step size and the decay factor have the same type.
  Three arithmetics are used below: the reals, the reals with a value for results that
  are not finite (\<open>num\<close>), and binary floating-point numbers with rounding (\<open>'p flt\<close>).
  The iteration count is a Python integer, hence an \<open>int\<close>, negative values included.
  The default values of the keyword arguments (\<^verbatim>\<open>step=0.1\<close>, \<^verbatim>\<open>decay=0.995\<close>,
  \<^verbatim>\<open>niter=100\<close> for \<^verbatim>\<open>gd\<close> and \<^verbatim>\<open>niter=10\<close> for \<^verbatim>\<open>newton\<close>) are values a caller may
  pass: the model takes every argument explicitly.
\<close>

subsection \<open>The differentiation oracle\<close>

text \<open>
  \<^verbatim>\<open>jax.grad\<close> is an external library: given a function it returns the function's
  derivative. It is a parameter of the model.
\<close>

type_synonym 'a differentiation_oracle = "('a \<Rightarrow> 'a) \<Rightarrow> ('a \<Rightarrow> 'a)"

subsection \<open>Gradient descent\<close>

text \<open>
  \<^verbatim>\<open>
  def gd(f, x0, step=0.1, decay=0.995, niter=100):
    df = jax.grad(f)
    x = x0
    for i in range(niter):
      x -= df(x)*step
      step *= decay
    return x
  \<close>
  The loop \<^verbatim>\<open>for i in range(niter)\<close> runs its body for \<open>i = 0, 1, ...\<close> as long as
  \<open>i < niter\<close>; the loop state is the pair of \<^verbatim>\<open>x\<close> and \<^verbatim>\<open>step\<close>.
\<close>

function gd_loop ::
  "('a::{minus,times} \<Rightarrow> 'a) \<Rightarrow> 'a \<Rightarrow> int \<Rightarrow> int \<Rightarrow> 'a \<times> 'a \<Rightarrow> 'a \<times> 'a" where
  "gd_loop df decay niter i (x, step) =
     (if i < niter
      then gd_loop df decay niter (i + 1) (x - df x * step, step * decay)
      else (x, step))"
  by pat_completeness auto
termination
  by (relation "measure (\<lambda>(df, decay, niter, i, s). nat (niter - i))") auto

declare gd_loop.simps [simp del]

definition gd ::
  "'a::{minus,times} differentiation_oracle \<Rightarrow> ('a \<Rightarrow> 'a) \<Rightarrow> 'a \<Rightarrow> 'a \<Rightarrow> 'a \<Rightarrow> int \<Rightarrow> 'a" where
  "gd grad f x0 step decay niter =
     (let df = grad f;
          x = x0
      in fst (gd_loop df decay niter 0 (x, step)))"

subsection \<open>Newton's method\<close>

text \<open>
  \<^verbatim>\<open>
  def newton(f, x0, niter=10):
    df = jax.grad(f)
    ddf = jax.grad(df)
    x = x0
    for i in range(niter):
      x = x - df(x)/ddf(x)
    return x
  \<close>
\<close>

function newton_loop ::
  "('a::{minus,inverse} \<Rightarrow> 'a) \<Rightarrow> ('a \<Rightarrow> 'a) \<Rightarrow> int \<Rightarrow> int \<Rightarrow> 'a \<Rightarrow> 'a" where
  "newton_loop df ddf niter i x =
     (if i < niter
      then newton_loop df ddf niter (i + 1) (x - df x / ddf x)
      else x)"
  by pat_completeness auto
termination
  by (relation "measure (\<lambda>(df, ddf, niter, i, x). nat (niter - i))") auto

declare newton_loop.simps [simp del]

definition newton ::
  "'a::{minus,inverse} differentiation_oracle \<Rightarrow> ('a \<Rightarrow> 'a) \<Rightarrow> 'a \<Rightarrow> int \<Rightarrow> 'a" where
  "newton grad f x0 niter =
     (let df = grad f;
          ddf = grad df;
          x = x0
      in newton_loop df ddf niter 0 x)"

subsection \<open>The recurrences of the specification\<close>

text \<open>
  The specification describes the two procedures by sequences: \<open>step\<^sub>0 = step0\<close> and
  \<open>step\<^sub>k\<^sub>+\<^sub>1 = step\<^sub>k * decay\<close>; \<open>x\<^sub>0 = x0\<close> and \<open>x\<^sub>k\<^sub>+\<^sub>1 = x\<^sub>k - df x\<^sub>k * step\<^sub>k\<close> for gradient
  descent; \<open>x\<^sub>0 = x0\<close> and \<open>x\<^sub>k\<^sub>+\<^sub>1 = x\<^sub>k - df x\<^sub>k / ddf x\<^sub>k\<close> for Newton's method. These
  definitions follow the specification's words, not the code.
\<close>

primrec spec_step_seq :: "'a::times \<Rightarrow> 'a \<Rightarrow> nat \<Rightarrow> 'a" where
  "spec_step_seq step0 decay 0 = step0"
| "spec_step_seq step0 decay (Suc k) = spec_step_seq step0 decay k * decay"

primrec spec_gd_seq :: "('a::{minus,times} \<Rightarrow> 'a) \<Rightarrow> 'a \<Rightarrow> 'a \<Rightarrow> 'a \<Rightarrow> nat \<Rightarrow> 'a" where
  "spec_gd_seq df x0 step0 decay 0 = x0"
| "spec_gd_seq df x0 step0 decay (Suc k) =
     spec_gd_seq df x0 step0 decay k
       - df (spec_gd_seq df x0 step0 decay k) * spec_step_seq step0 decay k"

primrec spec_newton_seq :: "('a::{minus,inverse} \<Rightarrow> 'a) \<Rightarrow> ('a \<Rightarrow> 'a) \<Rightarrow> 'a \<Rightarrow> nat \<Rightarrow> 'a" where
  "spec_newton_seq df ddf x0 0 = x0"
| "spec_newton_seq df ddf x0 (Suc k) =
     spec_newton_seq df ddf x0 k
       - df (spec_newton_seq df ddf x0 k) / ddf (spec_newton_seq df ddf x0 k)"

subsection \<open>The procedures with a trace of what they do\<close>

text \<open>
  To count the oracle calls and the passes through a loop body, the same two procedures
  are written once more with a trace: a call of the oracle appends \<open>Derivative g\<close>, where
  \<open>g\<close> is the function handed to the oracle, and a pass through the loop body appends
  \<open>Update\<close>. Nothing else differs from the definitions above, and the trace does not
  influence the computation (lemmas \<open>gd_traced_result\<close> and \<open>newton_traced_result\<close>).
\<close>

datatype 'a event = Derivative "'a \<Rightarrow> 'a" | Update

function gd_loop_traced ::
  "('a::{minus,times} \<Rightarrow> 'a) \<Rightarrow> 'a \<Rightarrow> int \<Rightarrow> int \<Rightarrow> ('a \<times> 'a) \<times> 'a event list
     \<Rightarrow> ('a \<times> 'a) \<times> 'a event list" where
  "gd_loop_traced df decay niter i ((x, step), trace) =
     (if i < niter
      then gd_loop_traced df decay niter (i + 1)
             ((x - df x * step, step * decay), trace @ [Update])
      else ((x, step), trace))"
  by pat_completeness auto
termination
  by (relation "measure (\<lambda>(df, decay, niter, i, s). nat (niter - i))") auto

declare gd_loop_traced.simps [simp del]

definition gd_traced ::
  "'a::{minus,times} differentiation_oracle \<Rightarrow> ('a \<Rightarrow> 'a) \<Rightarrow> 'a \<Rightarrow> 'a \<Rightarrow> 'a \<Rightarrow> int
     \<Rightarrow> 'a \<times> 'a event list" where
  "gd_traced grad f x0 step decay niter =
     (let df = grad f; trace = [Derivative f];
          x = x0;
          (s, trace) = gd_loop_traced df decay niter 0 ((x, step), trace)
      in (fst s, trace))"

function newton_loop_traced ::
  "('a::{minus,inverse} \<Rightarrow> 'a) \<Rightarrow> ('a \<Rightarrow> 'a) \<Rightarrow> int \<Rightarrow> int \<Rightarrow> 'a \<times> 'a event list
     \<Rightarrow> 'a \<times> 'a event list" where
  "newton_loop_traced df ddf niter i (x, trace) =
     (if i < niter
      then newton_loop_traced df ddf niter (i + 1) (x - df x / ddf x, trace @ [Update])
      else (x, trace))"
  by pat_completeness auto
termination
  by (relation "measure (\<lambda>(df, ddf, niter, i, s). nat (niter - i))") auto

declare newton_loop_traced.simps [simp del]

definition newton_traced ::
  "'a::{minus,inverse} differentiation_oracle \<Rightarrow> ('a \<Rightarrow> 'a) \<Rightarrow> 'a \<Rightarrow> int
     \<Rightarrow> 'a \<times> 'a event list" where
  "newton_traced grad f x0 niter =
     (let df = grad f; trace = [Derivative f];
          ddf = grad df; trace = trace @ [Derivative df];
          x = x0
      in newton_loop_traced df ddf niter 0 (x, trace))"

subsection \<open>Arithmetic with a value for results that are not finite numbers\<close>

text \<open>
  On the real numbers of HOL a division by zero is 0, which the program's division is
  not: the quotient of two JAX scalars with a zero denominator is an infinity or
  not-a-number, no exception is raised, and the value enters the next subtraction. The
  type \<open>num\<close> has the exact reals (\<open>Fin\<close>) and one more value, \<open>NonFinite\<close>, for the
  results that are not finite numbers. A division by zero gives \<open>NonFinite\<close>, and an
  operation with the operand \<open>NonFinite\<close> gives \<open>NonFinite\<close>. The procedures above run on
  \<open>num\<close> as they are, since \<open>num\<close> has the operations they use.

  The type records whether a result is a finite number and nothing more: it has neither
  rounding nor overflow, it does not tell the infinities from not-a-number, and the
  quotient of a finite number by \<open>NonFinite\<close> is \<open>NonFinite\<close>, where IEEE arithmetic gives 0
  for an infinite denominator. The property proved on \<open>num\<close> below rests on the laws
  stated before it, which IEEE arithmetic shares.
\<close>

datatype num = Fin real | NonFinite

instantiation num :: "{zero,one,plus,minus,times,inverse}"
begin

definition zero_num :: num where
  "zero_num = Fin 0"

definition one_num :: num where
  "one_num = Fin 1"

fun plus_num :: "num \<Rightarrow> num \<Rightarrow> num" where
  "plus_num (Fin a) (Fin b) = Fin (a + b)"
| "plus_num _ _ = NonFinite"

fun minus_num :: "num \<Rightarrow> num \<Rightarrow> num" where
  "minus_num (Fin a) (Fin b) = Fin (a - b)"
| "minus_num _ _ = NonFinite"

fun times_num :: "num \<Rightarrow> num \<Rightarrow> num" where
  "times_num (Fin a) (Fin b) = Fin (a * b)"
| "times_num _ _ = NonFinite"

fun divide_num :: "num \<Rightarrow> num \<Rightarrow> num" where
  "divide_num (Fin a) (Fin b) = (if b = 0 then NonFinite else Fin (a / b))"
| "divide_num _ _ = NonFinite"

definition inverse_num :: "num \<Rightarrow> num" where
  "inverse_num v = divide (Fin 1) v"

instance ..

end

subsection \<open>Arithmetic with rounding\<close>

text \<open>
  The scalars of the program are binary floating-point numbers: JAX computes the point in
  binary32, and the step size and the decay factor are Python floats, that is binary64,
  unless the caller passes something else. The type \<open>'p flt\<close> has the finite numbers
  \<open>m * 2 ^ e\<close> with an integer mantissa \<open>m\<close> and an integer exponent \<open>e\<close>, and one value for
  the results that are not finite numbers. Each operation computes the exact result and
  rounds it to the nearest number whose mantissa has at most \<open>LENGTH('p)\<close> bits, a tie
  going to the even mantissa, which is the default rounding of IEEE 754. Results are in
  normal form: the mantissa is odd, or the number is \<open>Finite 0 0\<close>.

  The exponent is not bounded: the type has no overflow, no underflow and no subnormal
  numbers, zero has no sign, and the infinities and not-a-number are one value.
\<close>

function bit_length :: "int \<Rightarrow> nat" where
  "bit_length n = (if n \<le> 0 then 0 else Suc (bit_length (n div 2)))"
  by pat_completeness auto
termination
  by (relation "measure nat") auto

declare bit_length.simps [simp del]

text \<open>
  \<open>round_nearest_even p m e\<close> rounds \<open>m * 2 ^ e\<close> to \<open>p\<close> bits: \<open>s\<close> is the number of bits to
  drop, \<open>r\<close> their value and \<open>h\<close> one half of the last bit that is kept.
\<close>

definition round_nearest_even :: "nat \<Rightarrow> int \<Rightarrow> int \<Rightarrow> int \<times> int" where
  "round_nearest_even p m e =
     (let a = \<bar>m\<bar>; n = bit_length a
      in if n \<le> p then (m, e)
         else let s = n - p; q = a div 2 ^ s; r = a mod 2 ^ s; h = 2 ^ (s - 1);
                  q' = (if h < r \<or> (r = h \<and> odd q) then q + 1 else q)
              in (sgn m * q', e + int s))"

function normalise :: "int \<Rightarrow> int \<Rightarrow> int \<times> int" where
  "normalise m e =
     (if m = 0 then (0, 0)
      else if even m then normalise (m div 2) (e + 1)
      else (m, e))"
  by pat_completeness auto
termination
  by (relation "measure (\<lambda>(m, e). nat \<bar>m\<bar>)") auto

declare normalise.simps [simp del]

datatype 'p flt = Finite int int | NotFinite

definition nearest :: "int \<Rightarrow> int \<Rightarrow> 'p::len flt" where
  "nearest m e =
     (let (m', e') = round_nearest_even LENGTH('p) m e;
          (m'', e'') = normalise m' e'
      in Finite m'' e'')"

text \<open>
  A quotient is computed to \<open>LENGTH('p) + 2\<close> bits or more, followed by one bit that tells
  whether the division left a remainder, so that rounding it is rounding the exact
  quotient. A division by zero gives \<open>NotFinite\<close>.
\<close>

instantiation flt :: (len) "{zero,one,plus,minus,times,inverse}"
begin

definition zero_flt :: "'a flt" where
  "zero_flt = Finite 0 0"

definition one_flt :: "'a flt" where
  "one_flt = Finite 1 0"

fun plus_flt :: "'a flt \<Rightarrow> 'a flt \<Rightarrow> 'a flt" where
  "plus_flt (Finite m1 e1) (Finite m2 e2) =
     (let e = min e1 e2
      in nearest (m1 * 2 ^ nat (e1 - e) + m2 * 2 ^ nat (e2 - e)) e)"
| "plus_flt _ _ = NotFinite"

fun minus_flt :: "'a flt \<Rightarrow> 'a flt \<Rightarrow> 'a flt" where
  "minus_flt (Finite m1 e1) (Finite m2 e2) =
     (let e = min e1 e2
      in nearest (m1 * 2 ^ nat (e1 - e) - m2 * 2 ^ nat (e2 - e)) e)"
| "minus_flt _ _ = NotFinite"

fun times_flt :: "'a flt \<Rightarrow> 'a flt \<Rightarrow> 'a flt" where
  "times_flt (Finite m1 e1) (Finite m2 e2) = nearest (m1 * m2) (e1 + e2)"
| "times_flt _ _ = NotFinite"

fun divide_flt :: "'a flt \<Rightarrow> 'a flt \<Rightarrow> 'a flt" where
  "divide_flt (Finite m1 e1) (Finite m2 e2) =
     (if m2 = 0 then NotFinite
      else let k = LENGTH('a) + 2 + bit_length \<bar>m2\<bar>;
               q = (\<bar>m1\<bar> * 2 ^ k) div \<bar>m2\<bar>;
               r = (\<bar>m1\<bar> * 2 ^ k) mod \<bar>m2\<bar>;
               sticky = (if r = 0 then 0 else 1)
           in nearest (sgn m1 * sgn m2 * (2 * q + sticky)) (e1 - e2 - int k - 1))"
| "divide_flt _ _ = NotFinite"

definition inverse_flt :: "'a flt \<Rightarrow> 'a flt" where
  "inverse_flt v = divide (Finite 1 0) v"

instance ..

end

type_synonym float32 = "24 flt"

type_synonym float64 = "53 flt"

text \<open>
  \<open>is_float v\<close>: \<open>v\<close> is a finite number of its precision in normal form, one that rounding
  leaves as it is. \<open>exactly v r\<close>: \<open>v\<close> is a finite number and its value is the real
  number \<open>r\<close>.
\<close>

fun is_float :: "'p::len flt \<Rightarrow> bool" where
  "is_float (Finite m e) \<longleftrightarrow> (nearest m e :: 'p flt) = Finite m e"
| "is_float NotFinite \<longleftrightarrow> False"

fun exactly :: "'p flt \<Rightarrow> real \<Rightarrow> bool" where
  "exactly (Finite m e) r \<longleftrightarrow>
     r = (if 0 \<le> e then of_int m * 2 ^ nat e else of_int m / 2 ^ nat (- e))"
| "exactly NotFinite r \<longleftrightarrow> False"

subsection \<open>Oracles\<close>

text \<open>
  An oracle is exact on a real function when the function it returns is the derivative
  everywhere.
\<close>

definition exact_on :: "real differentiation_oracle \<Rightarrow> (real \<Rightarrow> real) \<Rightarrow> bool" where
  "exact_on grad f \<longleftrightarrow> (\<forall>x. (f has_real_derivative grad f x) (at x))"

text \<open>
  To run the procedures on concrete inputs, the central difference with distance 1
  stands for the oracle. It is exact on polynomials of degree at most 2.
\<close>

definition central_difference :: "'a::{one,plus,minus,inverse} differentiation_oracle" where
  "central_difference g = (\<lambda>x. (g (x + 1) - g (x - 1)) / (1 + 1))"

text \<open>
  An oracle given by a table for one objective: it returns \<open>df\<close> for \<open>f\<close> and \<open>ddf\<close> for
  every other function, in particular for \<open>df\<close> when \<open>df\<close> is not \<open>f\<close>.
\<close>

definition table_oracle ::
  "('a \<Rightarrow> 'a) \<Rightarrow> ('a \<Rightarrow> 'a) \<Rightarrow> ('a \<Rightarrow> 'a) \<Rightarrow> 'a differentiation_oracle" where
  "table_oracle f df ddf g = (if g = f then df else ddf)"

section \<open>Properties\<close>

subsection \<open>One pass through a loop\<close>

lemma gd_loop_continue [simp]:
  "i < niter \<Longrightarrow>
     gd_loop df decay niter i (x, step) =
     gd_loop df decay niter (i + 1) (x - df x * step, step * decay)"
  by (subst gd_loop.simps) simp

lemma gd_loop_exit [simp]: "niter \<le> i \<Longrightarrow> gd_loop df decay niter i s = s"
  by (cases s) (simp add: gd_loop.simps)

lemma newton_loop_continue [simp]:
  "i < niter \<Longrightarrow>
     newton_loop df ddf niter i x = newton_loop df ddf niter (i + 1) (x - df x / ddf x)"
  by (subst newton_loop.simps) simp

lemma newton_loop_exit [simp]: "niter \<le> i \<Longrightarrow> newton_loop df ddf niter i x = x"
  by (simp add: newton_loop.simps)

subsection \<open>The loops follow the recurrences\<close>

text \<open>
  A loop entered at counter \<open>i\<close> in the \<open>k\<close>-th state of the sequence leaves in the state
  \<open>k + (niter - i)\<close>: induction on the number of passes that remain.
\<close>

lemma gd_loop_seq:
  "gd_loop df decay niter i (spec_gd_seq df x0 step0 decay k, spec_step_seq step0 decay k) =
     (spec_gd_seq df x0 step0 decay (k + nat (niter - i)),
      spec_step_seq step0 decay (k + nat (niter - i)))"
proof (induction "nat (niter - i)" arbitrary: i k)
  case 0
  then have "niter \<le> i" by simp
  then show ?case by simp
next
  case (Suc n)
  then have less: "i < niter" and rest: "n = nat (niter - (i + 1))" by simp_all
  have "k + nat (niter - i) = Suc k + nat (niter - (i + 1))"
    using less by simp
  with Suc.hyps(1) [OF rest, of "Suc k"] less show ?case by simp
qed

lemma newton_loop_seq:
  "newton_loop df ddf niter i (spec_newton_seq df ddf x0 k) =
     spec_newton_seq df ddf x0 (k + nat (niter - i))"
proof (induction "nat (niter - i)" arbitrary: i k)
  case 0
  then have "niter \<le> i" by simp
  then show ?case by simp
next
  case (Suc n)
  then have less: "i < niter" and rest: "n = nat (niter - (i + 1))" by simp_all
  have "k + nat (niter - i) = Suc k + nat (niter - (i + 1))"
    using less by simp
  with Suc.hyps(1) [OF rest, of "Suc k"] less show ?case by simp
qed

text \<open>
  Claim C1. \<^verbatim>\<open>gd\<close> computes the recurrence of the specification: with \<open>df\<close> the function the
  oracle returns for \<open>f\<close>, it returns \<open>x\<^sub>n\<close> for \<open>n = niter\<close>, where \<open>x\<^sub>0 = x0\<close>,
  \<open>step\<^sub>0 = step0\<close>, \<open>x\<^sub>k\<^sub>+\<^sub>1 = x\<^sub>k - df x\<^sub>k * step\<^sub>k\<close> and \<open>step\<^sub>k\<^sub>+\<^sub>1 = step\<^sub>k * decay\<close>. This holds
  for every arithmetic, and a negative \<open>niter\<close> counts as 0.
\<close>

theorem gd_computes_recurrence:
  "gd grad f x0 step0 decay niter = spec_gd_seq (grad f) x0 step0 decay (nat niter)"
  using gd_loop_seq [of "grad f" decay niter 0 x0 step0 0]
  by (simp add: gd_def Let_def)

text \<open>
  Claim C2. \<^verbatim>\<open>newton\<close> computes the recurrence of the specification: with \<open>df\<close> the function
  the oracle returns for \<open>f\<close> and \<open>ddf\<close> the one it returns for \<open>df\<close>, it returns \<open>x\<^sub>n\<close> for
  \<open>n = niter\<close>, where \<open>x\<^sub>0 = x0\<close> and \<open>x\<^sub>k\<^sub>+\<^sub>1 = x\<^sub>k - df x\<^sub>k / ddf x\<^sub>k\<close>.
\<close>

theorem newton_computes_recurrence:
  "newton grad f x0 niter = spec_newton_seq (grad f) (grad (grad f)) x0 (nat niter)"
  using newton_loop_seq [of "grad f" "grad (grad f)" niter 0 x0 0]
  by (simp add: newton_def Let_def)

subsection \<open>What the trace records\<close>

lemma gd_loop_traced_continue [simp]:
  "i < niter \<Longrightarrow>
     gd_loop_traced df decay niter i ((x, step), trace) =
     gd_loop_traced df decay niter (i + 1) ((x - df x * step, step * decay), trace @ [Update])"
  by (subst gd_loop_traced.simps) simp

lemma gd_loop_traced_exit [simp]: "niter \<le> i \<Longrightarrow> gd_loop_traced df decay niter i s = s"
proof -
  obtain x step trace where "s = ((x, step), trace)"
    by (metis surj_pair)
  then show "niter \<le> i \<Longrightarrow> gd_loop_traced df decay niter i s = s"
    by (simp add: gd_loop_traced.simps)
qed

lemma newton_loop_traced_continue [simp]:
  "i < niter \<Longrightarrow>
     newton_loop_traced df ddf niter i (x, trace) =
     newton_loop_traced df ddf niter (i + 1) (x - df x / ddf x, trace @ [Update])"
  by (subst newton_loop_traced.simps) simp

lemma newton_loop_traced_exit [simp]:
  "niter \<le> i \<Longrightarrow> newton_loop_traced df ddf niter i s = s"
  by (cases s) (simp add: newton_loop_traced.simps)

text \<open>
  The traced loop computes what the loop computes, and appends one \<open>Update\<close> for each of
  the \<open>niter - i\<close> passes that remain.
\<close>

lemma gd_loop_traced_eq:
  "gd_loop_traced df decay niter i (s, trace) =
     (gd_loop df decay niter i s, trace @ replicate (nat (niter - i)) Update)"
proof (induction "nat (niter - i)" arbitrary: i s trace)
  case 0
  then have "niter \<le> i" by simp
  then show ?case by simp
next
  case (Suc n)
  then have less: "i < niter" and rest: "n = nat (niter - (i + 1))" by simp_all
  obtain x step where s: "s = (x, step)" by (cases s)
  have "replicate (nat (niter - i)) Update = Update # replicate n (Update :: 'a event)"
    using Suc.hyps(2) by (metis replicate_Suc)
  with Suc.hyps(1) [OF rest] less show ?case by (simp add: s rest)
qed

lemma newton_loop_traced_eq:
  "newton_loop_traced df ddf niter i (x, trace) =
     (newton_loop df ddf niter i x, trace @ replicate (nat (niter - i)) Update)"
proof (induction "nat (niter - i)" arbitrary: i x trace)
  case 0
  then have "niter \<le> i" by simp
  then show ?case by simp
next
  case (Suc n)
  then have less: "i < niter" and rest: "n = nat (niter - (i + 1))" by simp_all
  have "replicate (nat (niter - i)) Update = Update # replicate n (Update :: 'a event)"
    using Suc.hyps(2) by (metis replicate_Suc)
  with Suc.hyps(1) [OF rest] less show ?case by (simp add: rest)
qed

lemma gd_traced_result:
  "gd_traced grad f x0 step decay niter =
     (gd grad f x0 step decay niter, Derivative f # replicate (nat niter) Update)"
  by (simp add: gd_traced_def gd_def Let_def gd_loop_traced_eq)

lemma newton_traced_result:
  "newton_traced grad f x0 niter =
     (newton grad f x0 niter,
      Derivative f # Derivative (grad f) # replicate (nat niter) Update)"
  by (simp add: newton_traced_def newton_def Let_def newton_loop_traced_eq)

lemma count_list_replicate_Update: "count_list (replicate n Update) Update = n"
  by (induction n) simp_all

text \<open>
  Claim C3. For every input and every \<open>niter \<ge> 0\<close>, \<^verbatim>\<open>gd\<close> and \<^verbatim>\<open>newton\<close> return (both
  loops are total functions, with the measure \<open>niter - i\<close>), and the loop body is passed
  exactly \<open>niter\<close> times: the number of \<open>Update\<close> entries of the trace is \<open>niter\<close>, whatever
  \<open>f\<close>, \<open>x0\<close>, \<open>step\<close> and \<open>decay\<close> are. There is no test of convergence in either loop.
\<close>

theorem exactly_niter_updates:
  fixes grad :: "'a::{minus,times,inverse} differentiation_oracle"
  shows "0 \<le> niter \<Longrightarrow>
     fst (gd_traced grad f x0 step decay niter) = gd grad f x0 step decay niter \<and>
     int (count_list (snd (gd_traced grad f x0 step decay niter)) Update) = niter \<and>
     fst (newton_traced grad f x0 niter) = newton grad f x0 niter \<and>
     int (count_list (snd (newton_traced grad f x0 niter)) Update) = niter"
  by (simp add: gd_traced_result newton_traced_result count_list_replicate_Update)

theorem exactly_niter_updates_witness:
  "(0::int) \<le> 3 \<and>
     fst (gd_traced central_difference (\<lambda>x. x * x) (3::real) (1/10) 1 3) = 192 / 125 \<and>
     int (count_list (snd (gd_traced central_difference (\<lambda>x. x * x) (3::real) (1/10) 1 3))
            Update) = 3 \<and>
     fst (newton_traced central_difference (\<lambda>x. x * x) (3::real) 3) = 0 \<and>
     int (count_list (snd (newton_traced central_difference (\<lambda>x. x * x) (3::real) 3))
            Update) = 3"
  using exactly_niter_updates [of 3 central_difference "\<lambda>x. x * x" "3::real" "1/10" 1]
  by (simp add: gd_def newton_def central_difference_def)

text \<open>
  Claim C8. \<^verbatim>\<open>gd\<close> calls the oracle exactly once, on \<open>f\<close>, and \<^verbatim>\<open>newton\<close> exactly twice,
  on \<open>f\<close> and then on the function returned for \<open>f\<close>. In both traces every oracle call
  comes before the first \<open>Update\<close>, and their number does not depend on \<open>niter\<close>. The loops
  run on the functions the oracle returned in those calls.
\<close>

theorem oracle_calls_before_loop:
  fixes grad :: "'a::{minus,times,inverse} differentiation_oracle"
  shows "snd (gd_traced grad f x0 step decay niter) =
       [Derivative f] @ replicate (nat niter) Update \<and>
     fst (gd_traced grad f x0 step decay niter) =
       fst (gd_loop (grad f) decay niter 0 (x0, step)) \<and>
     snd (newton_traced grad f x0 niter) =
       [Derivative f, Derivative (grad f)] @ replicate (nat niter) Update \<and>
     fst (newton_traced grad f x0 niter) =
       newton_loop (grad f) (grad (grad f)) niter 0 x0"
  by (simp add: gd_traced_result newton_traced_result gd_def newton_def Let_def)

text \<open>
  Claim C9. For every \<open>niter \<le> 0\<close>, negative values included, \<^verbatim>\<open>gd\<close> and \<^verbatim>\<open>newton\<close> do
  not enter the loop body and return \<open>x0\<close> unchanged.
\<close>

theorem nonpositive_niter_returns_x0:
  fixes grad :: "'a::{minus,times,inverse} differentiation_oracle"
  shows "niter \<le> 0 \<Longrightarrow>
     gd grad f x0 step decay niter = x0 \<and>
     newton grad f x0 niter = x0 \<and>
     count_list (snd (gd_traced grad f x0 step decay niter)) Update = 0 \<and>
     count_list (snd (newton_traced grad f x0 niter)) Update = 0"
  by (simp add: gd_traced_result newton_traced_result gd_def newton_def Let_def)

theorem nonpositive_niter_returns_x0_witness:
  "(- 4 :: int) \<le> 0 \<and>
     gd central_difference (\<lambda>x. x * x) (3::real) (1/10) 1 (- 4) = 3 \<and>
     newton central_difference (\<lambda>x. x * x) (3::real) (- 4) = 3 \<and>
     count_list (snd (gd_traced central_difference (\<lambda>x. x * x) (3::real) (1/10) 1 (- 4)))
       Update = 0 \<and>
     count_list (snd (newton_traced central_difference (\<lambda>x. x * x) (3::real) (- 4)))
       Update = 0"
  using nonpositive_niter_returns_x0
    [of "- 4" central_difference "\<lambda>x. x * x" "3::real" "1/10" 1]
  by simp

subsection \<open>The step size\<close>

lemma spec_step_seq_closed:
  fixes step0 :: "'a::monoid_mult"
  shows "spec_step_seq step0 decay k = step0 * decay ^ k"
  by (induction k) (simp_all add: power_Suc2 mult.assoc del: power_Suc)

text \<open>
  A run to \<open>niter\<close> passes, at every counter \<open>i\<close> on its way, through the state in which
  the run to \<open>i\<close> ends.
\<close>

lemma gd_loop_split:
  "j \<le> i \<Longrightarrow> i \<le> niter \<Longrightarrow>
     gd_loop df decay niter j s = gd_loop df decay niter i (gd_loop df decay i j s)"
proof (induction "nat (i - j)" arbitrary: j s)
  case 0
  then have "i \<le> j" by simp
  with 0 show ?case by simp
next
  case (Suc n)
  then have less: "j < i" and rest: "n = nat (i - (j + 1))" by simp_all
  obtain x step where s: "s = (x, step)" by (cases s)
  from less Suc.prems have "j < niter" "j + 1 \<le> i" by simp_all
  with Suc.hyps(1) [OF rest _ Suc.prems(2)] less show ?case by (simp add: s)
qed

lemma gd_loop_state:
  "gd_loop df decay niter 0 (x0, step0) =
     (spec_gd_seq df x0 step0 decay (nat niter), spec_step_seq step0 decay (nat niter))"
  using gd_loop_seq [of df decay niter 0 x0 step0 0] by simp

text \<open>
  The loop multiplies by \<open>decay\<close> one factor at a time, and every product is rounded.
  With the default arguments of \<^verbatim>\<open>gd\<close>, the binary64 numbers nearest to 0.1 and 0.995,
  the step size after 10 iterations is \<open>3426735383323163 / 2 ^ 55\<close>. This is not the
  number \<open>step0 * decay ^ 10\<close>, and it is not the binary64 number nearest to it either.
\<close>

theorem step_size_counterexample:
  "exactly (Finite 1 0 / Finite 10 0 :: float64) (3602879701896397 / 2 ^ 55) \<and>
   exactly (Finite 995 0 / Finite 1000 0 :: float64) (8962163258467287 / 2 ^ 53) \<and>
   snd (gd_loop (central_difference (\<lambda>x. x * x)) (Finite 995 0 / Finite 1000 0) 10 0
          (Finite 3 0, Finite 1 0 / Finite 10 0 :: float64)) =
     Finite 3426735383323163 (- 55) \<and>
   \<not> exactly (Finite 3426735383323163 (- 55) :: float64)
       ((3602879701896397 / 2 ^ 55) * (8962163258467287 / 2 ^ 53) ^ 10) \<and>
   (nearest (3602879701896397 * 8962163258467287 ^ 10) (- 585) :: float64) \<noteq>
     Finite 3426735383323163 (- 55)"
proof -
  have step0: "(Finite 1 0 / Finite 10 0 :: float64) = Finite 3602879701896397 (- 55)"
    by code_simp
  have decay: "(Finite 995 0 / Finite 1000 0 :: float64) = Finite 8962163258467287 (- 53)"
    by code_simp
  have run: "snd (gd_loop (central_difference (\<lambda>x. x * x)) (Finite 995 0 / Finite 1000 0) 10 0
      (Finite 3 0, Finite 1 0 / Finite 10 0 :: float64)) = Finite 3426735383323163 (- 55)"
    by code_simp
  have closed: "\<not> exactly (Finite 3426735383323163 (- 55) :: float64)
      ((3602879701896397 / 2 ^ 55) * (8962163258467287 / 2 ^ 53) ^ 10)"
    by (simp add: power_divide divide_simps)
  have rounded: "(nearest (3602879701896397 * 8962163258467287 ^ 10) (- 585) :: float64) \<noteq>
      Finite 3426735383323163 (- 55)"
    by code_simp
  from run closed rounded show ?thesis
    unfolding step0 decay by simp
qed

text \<open>
  Claim C6, amended. After \<open>i\<close> iterations of \<^verbatim>\<open>gd\<close>, for every \<open>i\<close> from 0 to \<open>niter\<close>, the
  step size is the \<open>i\<close>-th element of the sequence \<open>step\<^sub>0 = step0\<close>,
  \<open>step\<^sub>k\<^sub>+\<^sub>1 = step\<^sub>k * decay\<close>, in the arithmetic of the program, whatever it is: the loop
  state after \<open>i\<close> passes is the point \<^verbatim>\<open>gd\<close> returns for \<open>i\<close> iterations together with that
  step size, and the run to \<open>niter\<close> goes on from exactly this state at counter \<open>i\<close>, so
  that this is the step size of the next update. Where the multiplication is exact
  (associative, with unit 1, as on the reals), the element is \<open>step0 * decay ^ i\<close>.
\<close>

theorem step_size_closed_form:
  fixes grad :: "'a::{minus,times} differentiation_oracle" and s d :: "'b::monoid_mult"
  shows "0 \<le> i \<Longrightarrow> i \<le> niter \<Longrightarrow>
     gd_loop (grad f) decay i 0 (x0, step0) =
       (gd grad f x0 step0 decay i, spec_step_seq step0 decay (nat i)) \<and>
     gd_loop (grad f) decay niter 0 (x0, step0) =
       gd_loop (grad f) decay niter i
         (gd grad f x0 step0 decay i, spec_step_seq step0 decay (nat i)) \<and>
     spec_step_seq s d (nat i) = s * d ^ nat i"
proof -
  assume i: "0 \<le> i" "i \<le> niter"
  have state: "gd_loop (grad f) decay i 0 (x0, step0) =
      (gd grad f x0 step0 decay i, spec_step_seq step0 decay (nat i))"
    by (simp add: gd_def Let_def gd_loop_state)
  from gd_loop_split [OF i, of "grad f" decay "(x0, step0)"] state
  show ?thesis by (simp add: spec_step_seq_closed)
qed

theorem step_size_closed_form_witness:
  "(0::int) \<le> 4 \<and> (4::int) \<le> 6 \<and>
     gd_loop (central_difference (\<lambda>x. x * x)) (Finite 995 0 / Finite 1000 0) 4 0
         (Finite 3 0, Finite 1 0 / Finite 10 0 :: float64) =
       (Finite 5575484838274033 (- 52), Finite 7062721481251405 (- 56)) \<and>
     gd_loop (central_difference (\<lambda>x. x * x)) (Finite 995 0 / Finite 1000 0) 6 0
         (Finite 3 0, Finite 1 0 / Finite 10 0 :: float64) =
       gd_loop (central_difference (\<lambda>x. x * x)) (Finite 995 0 / Finite 1000 0) 6 4
         (Finite 5575484838274033 (- 52), Finite 7062721481251405 (- 56)) \<and>
     spec_step_seq (1/10 :: real) (199/200) (nat 4) = (1/10) * (199/200) ^ nat 4"
proof -
  have point: "gd central_difference (\<lambda>x. x * x) (Finite 3 0)
      (Finite 1 0 / Finite 10 0 :: float64) (Finite 995 0 / Finite 1000 0) 4 =
      Finite 5575484838274033 (- 52)"
    by code_simp
  have step: "spec_step_seq (Finite 1 0 / Finite 10 0 :: float64)
      (Finite 995 0 / Finite 1000 0) (nat 4) = Finite 7062721481251405 (- 56)"
    by code_simp
  have "(0::int) \<le> 4" and "(4::int) \<le> 6"
    by simp_all
  from step_size_closed_form [OF this, where grad = central_difference and f = "\<lambda>x. x * x"
      and decay = "Finite 995 0 / Finite 1000 0 :: float64" and ?x0.0 = "Finite 3 0"
      and ?step0.0 = "Finite 1 0 / Finite 10 0" and s = "1/10 :: real" and d = "199/200"]
  show ?thesis
    unfolding point step by simp
qed

subsection \<open>Critical points\<close>

lemma newton_loop_fixed:
  fixes x :: "'a::division_ring"
  shows "df x = 0 \<Longrightarrow> newton_loop df ddf niter i x = x"
proof (induction "nat (niter - i)" arbitrary: i)
  case 0
  then have "niter \<le> i" by simp
  then show ?case by simp
next
  case (Suc n)
  then have less: "i < niter" and rest: "n = nat (niter - (i + 1))" by simp_all
  with Suc.hyps(1) [OF rest Suc.prems] Suc.prems show ?case by simp
qed

text \<open>
  With a step size that is not a finite number the product \<open>0 * step\<close> is not 0 but
  again not a finite number (\<open>0 * inf\<close> is not-a-number in IEEE arithmetic), and neither
  is the point after the update.
\<close>

theorem critical_point_counterexample:
  "central_difference (\<lambda>x. x * x) (Fin 0) = 0 \<and>
   gd central_difference (\<lambda>x. x * x) (Fin 0) NonFinite 1 1 = NonFinite \<and>
   NonFinite \<noteq> Fin 0"
  by (simp add: gd_def central_difference_def zero_num_def one_num_def)

text \<open>
  What keeps a critical point fixed are three facts of the arithmetic: the product of 0
  and a finite number is 0, the quotient of 0 and a finite number other than 0 is 0, and
  subtracting 0 from \<open>x0\<close> gives \<open>x0\<close>. Exact arithmetic has them with every number finite;
  floating-point arithmetic has them for its finite numbers, up to the sign of a zero,
  which its comparison ignores. The step sizes of the hypothesis are those the program
  computes, so that a step size that has overflowed is not finite. The lemmas after the
  next two show the facts for \<open>'p flt\<close>.
\<close>

lemma spec_gd_seq_fixed:
  fixes is_finite :: "'a::{zero,minus,times} \<Rightarrow> bool"
  assumes mult: "\<And>s. is_finite s \<Longrightarrow> 0 * s = 0" and sub: "x0 - 0 = x0" and crit: "df x0 = 0"
  shows "(\<forall>k<n. is_finite (spec_step_seq step0 decay k)) \<Longrightarrow> spec_gd_seq df x0 step0 decay n = x0"
proof (induction n)
  case 0
  show ?case by simp
next
  case (Suc n)
  then have "spec_gd_seq df x0 step0 decay n = x0" and "is_finite (spec_step_seq step0 decay n)"
    by simp_all
  then show ?case
    by (simp add: crit mult sub)
qed

lemma newton_loop_fixed_finite:
  fixes x0 :: "'a::{zero,minus,inverse}"
  assumes quot: "0 / ddf x0 = 0" and sub: "x0 - 0 = x0" and crit: "df x0 = 0"
  shows "newton_loop df ddf niter i x0 = x0"
proof (induction "nat (niter - i)" arbitrary: i)
  case 0
  then have "niter \<le> i" by simp
  then show ?case by simp
next
  case (Suc n)
  then have less: "i < niter" and rest: "n = nat (niter - (i + 1))" by simp_all
  with Suc.hyps(1) [OF rest] show ?case
    by (simp add: crit quot sub)
qed

lemma nearest_zero: "(nearest 0 e :: 'p::len flt) = 0"
  by (simp add: nearest_def round_nearest_even_def bit_length.simps normalise.simps zero_flt_def)

lemma times_zero_flt: "is_float s \<Longrightarrow> 0 * s = (0 :: 'p::len flt)"
  by (cases s) (simp_all add: zero_flt_def nearest_zero [unfolded zero_flt_def])

lemma divide_zero_flt: "is_float d \<Longrightarrow> d \<noteq> 0 \<Longrightarrow> 0 / d = (0 :: 'p::len flt)"
proof (cases d)
  case (Finite m e)
  assume "is_float d" "d \<noteq> 0"
  with Finite have "m \<noteq> 0"
    using nearest_zero [of e, where 'p = 'p] by (auto simp: zero_flt_def)
  with Finite show ?thesis
    by (simp add: zero_flt_def Let_def nearest_zero [unfolded zero_flt_def])
next
  case NotFinite
  assume "is_float d"
  with NotFinite show ?thesis by simp
qed

text \<open>
  Claim C10, amended. In an arithmetic with these three facts, if \<open>df x0 = 0\<close> then \<^verbatim>\<open>gd\<close>
  returns \<open>x0\<close> for every iteration count and for every step size and decay factor such
  that each step size used, \<open>step\<^sub>k\<close> for \<open>k < niter\<close>, is finite; and if moreover \<open>ddf x0\<close>
  is finite and not 0 then \<^verbatim>\<open>newton\<close> returns \<open>x0\<close> for every iteration count.
\<close>

theorem critical_point_is_fixed:
  fixes grad :: "'a::{zero,minus,times,inverse} differentiation_oracle"
    and is_finite :: "'a \<Rightarrow> bool"
  assumes "\<forall>s. is_finite s \<longrightarrow> 0 * s = 0"
    and "\<forall>d. is_finite d \<and> d \<noteq> 0 \<longrightarrow> 0 / d = 0"
    and "x0 - 0 = x0"
    and "grad f x0 = 0"
  shows "((\<forall>k<nat niter. is_finite (spec_step_seq step decay k)) \<longrightarrow>
            gd grad f x0 step decay niter = x0) \<and>
         (is_finite (grad (grad f) x0) \<and> grad (grad f) x0 \<noteq> 0 \<longrightarrow>
            newton grad f x0 niter = x0)"
proof (intro conjI impI)
  assume "\<forall>k<nat niter. is_finite (spec_step_seq step decay k)"
  with assms have "spec_gd_seq (grad f) x0 step decay (nat niter) = x0"
    by (intro spec_gd_seq_fixed [where is_finite = is_finite]) simp_all
  then show "gd grad f x0 step decay niter = x0"
    by (simp add: gd_def Let_def gd_loop_state)
next
  assume "is_finite (grad (grad f) x0) \<and> grad (grad f) x0 \<noteq> 0"
  with assms have "0 / grad (grad f) x0 = 0"
    by simp
  with assms show "newton grad f x0 niter = x0"
    by (simp add: newton_def Let_def newton_loop_fixed_finite)
qed

theorem critical_point_is_fixed_witness:
  "(0::float32) - 0 = 0 \<and>
   central_difference (\<lambda>x. x * x) (0::float32) = 0 \<and>
   is_float (spec_step_seq (Finite 1 0 / Finite 10 0 :: float32)
               (Finite 995 0 / Finite 1000 0) 0) \<and>
   is_float (spec_step_seq (Finite 1 0 / Finite 10 0 :: float32)
               (Finite 995 0 / Finite 1000 0) 1) \<and>
   is_float (spec_step_seq (Finite 1 0 / Finite 10 0 :: float32)
               (Finite 995 0 / Finite 1000 0) 2) \<and>
   gd central_difference (\<lambda>x. x * x) (0::float32)
      (Finite 1 0 / Finite 10 0) (Finite 995 0 / Finite 1000 0) 3 = 0 \<and>
   is_float (central_difference (central_difference (\<lambda>x. x * x)) (0::float32)) \<and>
   central_difference (central_difference (\<lambda>x. x * x)) (0::float32) \<noteq> 0 \<and>
   newton central_difference (\<lambda>x. x * x) (0::float32) 3 = 0"
proof -
  have law1: "\<forall>s::float32. is_float s \<longrightarrow> 0 * s = 0"
    by (simp add: times_zero_flt)
  have law2: "\<forall>d::float32. is_float d \<and> d \<noteq> 0 \<longrightarrow> 0 / d = 0"
    by (simp add: divide_zero_flt)
  have sub: "(0::float32) - 0 = 0"
    by code_simp
  have crit: "central_difference (\<lambda>x. x * x) (0::float32) = 0"
    by code_simp
  have step0: "is_float (spec_step_seq (Finite 1 0 / Finite 10 0 :: float32)
      (Finite 995 0 / Finite 1000 0) 0)"
    by code_simp
  have step1: "is_float (spec_step_seq (Finite 1 0 / Finite 10 0 :: float32)
      (Finite 995 0 / Finite 1000 0) 1)"
    by code_simp
  have step2: "is_float (spec_step_seq (Finite 1 0 / Finite 10 0 :: float32)
      (Finite 995 0 / Finite 1000 0) 2)"
    by code_simp
  have steps: "\<forall>k<nat 3. is_float (spec_step_seq (Finite 1 0 / Finite 10 0 :: float32)
      (Finite 995 0 / Finite 1000 0) k)"
  proof (intro allI impI)
    fix k :: nat
    assume "k < nat 3"
    then have "k = 0 \<or> k = 1 \<or> k = 2"
      by auto
    with step0 step1 step2
    show "is_float (spec_step_seq (Finite 1 0 / Finite 10 0 :: float32)
        (Finite 995 0 / Finite 1000 0) k)"
      by blast
  qed
  have fin: "is_float (central_difference (central_difference (\<lambda>x. x * x)) (0::float32))"
    by code_simp
  have nz: "central_difference (central_difference (\<lambda>x. x * x)) (0::float32) \<noteq> 0"
    by code_simp
  from critical_point_is_fixed [where is_finite = is_float and grad = central_difference
      and f = "\<lambda>x. x * x" and ?x0.0 = "0::float32" and niter = 3
      and step = "Finite 1 0 / Finite 10 0" and decay = "Finite 995 0 / Finite 1000 0",
      OF law1 law2 sub crit]
    sub crit step0 step1 step2 steps fin nz
  show ?thesis by blast
qed

subsection \<open>A zero second derivative\<close>

text \<open>
  What the loop of \<^verbatim>\<open>newton\<close> does with a zero denominator depends on three laws of the
  arithmetic only: a quotient with denominator 0 is not a finite number, and a
  difference with an operand that is not a finite number is not one either. IEEE
  arithmetic has them; so has \<open>num\<close>.
\<close>

lemma newton_loop_stays_not_finite:
  fixes is_finite :: "'a::{minus,inverse} \<Rightarrow> bool"
  assumes sub_left: "\<And>x y. \<not> is_finite x \<Longrightarrow> \<not> is_finite (x - y)"
  shows "\<not> is_finite x \<Longrightarrow> \<not> is_finite (newton_loop df ddf niter i x)"
proof (induction "nat (niter - i)" arbitrary: i x)
  case 0
  then have "niter \<le> i" by simp
  with 0 show ?case by simp
next
  case (Suc n)
  then have less: "i < niter" and rest: "n = nat (niter - (i + 1))" by simp_all
  from Suc.prems have "\<not> is_finite (x - df x / ddf x)"
    by (rule sub_left)
  with Suc.hyps(1) [OF rest] less show ?case by simp
qed

lemma newton_loop_zero_denominator:
  fixes is_finite :: "'a::{zero,minus,inverse} \<Rightarrow> bool"
  assumes div_zero: "\<And>a. \<not> is_finite (a / 0)"
    and sub_right: "\<And>x y. \<not> is_finite y \<Longrightarrow> \<not> is_finite (x - y)"
    and sub_left: "\<And>x y. \<not> is_finite x \<Longrightarrow> \<not> is_finite (x - y)"
    and zero: "ddf x0 = 0" and niter: "1 \<le> niter"
  shows "\<not> is_finite (newton_loop df ddf niter 0 x0)"
proof -
  have "\<not> is_finite (df x0 / ddf x0)"
    unfolding zero by (rule div_zero)
  then have first: "\<not> is_finite (x0 - df x0 / ddf x0)"
    by (rule sub_right)
  have "\<not> is_finite (newton_loop df ddf niter (0 + 1) (x0 - df x0 / ddf x0))"
    by (rule newton_loop_stays_not_finite [where is_finite = is_finite])
       (erule sub_left, rule first)
  moreover have "newton_loop df ddf niter 0 x0 =
      newton_loop df ddf niter (0 + 1) (x0 - df x0 / ddf x0)"
    using niter by (intro newton_loop_continue) simp
  ultimately show ?thesis by simp
qed

lemma divide_by_zero_num: "v / (0::num) = NonFinite"
  by (cases v) (simp_all add: zero_num_def)

lemma minus_NonFinite_right: "v - NonFinite = NonFinite"
  by (cases v) simp_all

text \<open>
  Claim C7. On the arithmetic \<open>num\<close>, where a division by zero gives \<open>NonFinite\<close>: for
  every \<open>f\<close> and \<open>x0\<close> with \<open>ddf x0 = 0\<close>, the quotient \<open>df x0 / ddf x0\<close> of the first pass is
  computed without a test of the denominator, and the result of \<^verbatim>\<open>newton\<close> after one
  iteration, and after every larger number of iterations, is \<open>NonFinite\<close>. It is returned
  as an ordinary value: \<^verbatim>\<open>newton\<close> has no error result.
\<close>

theorem newton_zero_second_derivative:
  fixes grad :: "num differentiation_oracle"
  shows "grad (grad f) x0 = 0 \<Longrightarrow> 1 \<le> niter \<Longrightarrow>
     newton grad f x0 1 = NonFinite \<and> newton grad f x0 niter = NonFinite"
proof -
  assume zero: "grad (grad f) x0 = 0" and niter: "1 \<le> niter"
  have "\<not> (newton_loop (grad f) (grad (grad f)) n 0 x0 \<noteq> NonFinite)" if "1 \<le> n" for n
    using _ _ _ zero that
    by (rule newton_loop_zero_denominator [where is_finite = "\<lambda>v. v \<noteq> NonFinite"])
       (simp_all add: divide_by_zero_num minus_NonFinite_right)
  from this [of 1] this [OF niter] show ?thesis
    unfolding newton_def Let_def by simp
qed

theorem newton_zero_second_derivative_witness:
  "central_difference (central_difference (\<lambda>x. x)) (Fin 3) = 0 \<and> (1::int) \<le> 4 \<and>
     newton central_difference (\<lambda>x. x) (Fin 3) 1 = NonFinite \<and>
     newton central_difference (\<lambda>x. x) (Fin 3) 4 = NonFinite"
  using newton_zero_second_derivative [of central_difference "\<lambda>x. x" "Fin 3" 4]
  by (simp add: central_difference_def zero_num_def one_num_def)

subsection \<open>Quadratic objectives with an exact oracle\<close>

lemma exact_on_unique:
  "exact_on grad f \<Longrightarrow> (\<And>x. (f has_real_derivative f' x) (at x)) \<Longrightarrow> grad f = f'"
  by (rule ext) (auto simp: exact_on_def intro: DERIV_unique)

lemma DERIV_shifted_square: "((\<lambda>x. (x - c)\<^sup>2) has_real_derivative 2 * (x - c)) (at x)"
  by (auto intro!: derivative_eq_intros)

lemma DERIV_shifted_linear: "((\<lambda>x. 2 * (x - c)) has_real_derivative 2) (at x)"
  by (auto intro!: derivative_eq_intros)

lemma central_difference_square:
  "central_difference (\<lambda>x::real. (x - c)\<^sup>2) = (\<lambda>x. 2 * (x - c))"
  by (rule ext) (simp add: central_difference_def power2_eq_square field_simps)

text \<open>
  In binary32, with \<open>c = 1\<close>, the start \<open>x0 = 2 ^ 25\<close> (\<open>Finite 1 25\<close>) and the derivatives
  \<open>df x = 2 * (x - c)\<close> and \<open>ddf x = 2\<close> (\<open>Finite 1 1\<close>): the difference \<open>x0 - c\<close> is rounded to
  \<open>2 ^ 25\<close>, and one update gives 0, not \<open>c\<close>. The update itself is the one of claim C2,
  which holds in every arithmetic.
\<close>

theorem newton_quadratic_counterexample:
  "table_oracle (\<lambda>x. (x - 1) * (x - 1)) (\<lambda>x. Finite 1 1 * (x - 1)) (\<lambda>x. Finite 1 1)
       (\<lambda>x::float32. (x - 1) * (x - 1)) = (\<lambda>x. Finite 1 1 * (x - 1)) \<and>
   table_oracle (\<lambda>x. (x - 1) * (x - 1)) (\<lambda>x. Finite 1 1 * (x - 1)) (\<lambda>x. Finite 1 1)
       (\<lambda>x::float32. Finite 1 1 * (x - 1)) = (\<lambda>x. Finite 1 1) \<and>
   newton (table_oracle (\<lambda>x. (x - 1) * (x - 1)) (\<lambda>x. Finite 1 1 * (x - 1)) (\<lambda>x. Finite 1 1))
       (\<lambda>x::float32. (x - 1) * (x - 1)) (Finite 1 25) 1 = Finite 0 0 \<and>
   (Finite 0 0 :: float32) \<noteq> 1"
proof -
  have "Finite 1 1 * (0 - 1) \<noteq> ((0 - 1) * (0 - 1) :: float32)"
    by code_simp
  then have differ: "(\<lambda>x::float32. Finite 1 1 * (x - 1)) \<noteq> (\<lambda>x. (x - 1) * (x - 1))"
    by (metis (no_types))
  have loop: "newton_loop (\<lambda>x. Finite 1 1 * (x - 1)) (\<lambda>x. Finite 1 1) 1 0
      (Finite 1 25 :: float32) = Finite 0 0"
    by code_simp
  have "(Finite 0 0 :: float32) \<noteq> 1"
    by code_simp
  with differ loop show ?thesis
    by (simp add: newton_def Let_def table_oracle_def)
qed

text \<open>
  Claim C4, amended. In exact arithmetic, for \<open>f x = (x - c)\<^sup>2\<close> on the reals, with an
  oracle that is exact on \<open>f\<close> and on the function it returns for \<open>f\<close> (so that
  \<open>df x = 2 * (x - c)\<close> and \<open>ddf x = 2\<close>), \<^verbatim>\<open>newton\<close> started at any \<open>x0\<close> returns \<open>c\<close> after one
  iteration, and \<open>c\<close> for every \<open>niter \<ge> 1\<close>.
\<close>

theorem newton_exact_on_quadratic:
  fixes c x0 :: real
  shows "exact_on grad (\<lambda>x. (x - c)\<^sup>2) \<Longrightarrow> exact_on grad (grad (\<lambda>x. (x - c)\<^sup>2)) \<Longrightarrow>
     1 \<le> niter \<Longrightarrow>
     newton grad (\<lambda>x. (x - c)\<^sup>2) x0 1 = c \<and> newton grad (\<lambda>x. (x - c)\<^sup>2) x0 niter = c"
proof -
  assume e1: "exact_on grad (\<lambda>x. (x - c)\<^sup>2)"
    and e2: "exact_on grad (grad (\<lambda>x. (x - c)\<^sup>2))"
    and niter: "1 \<le> niter"
  have df: "grad (\<lambda>x. (x - c)\<^sup>2) = (\<lambda>x. 2 * (x - c))"
    using e1 by (rule exact_on_unique) (rule DERIV_shifted_square)
  have ddf: "grad (\<lambda>x. 2 * (x - c)) = (\<lambda>x. 2)"
    using e2 unfolding df by (rule exact_on_unique) (rule DERIV_shifted_linear)
  have fixed: "newton_loop (\<lambda>x. 2 * (x - c)) (\<lambda>x. 2) n i c = c" for n i
    by (rule newton_loop_fixed) simp
  have upd: "x0 - 2 * (x0 - c) / 2 = c"
    by (simp add: field_simps)
  have "newton_loop (\<lambda>x. 2 * (x - c)) (\<lambda>x. 2) n 0 x0 = c" if "1 \<le> n" for n
  proof -
    have "newton_loop (\<lambda>x. 2 * (x - c)) (\<lambda>x. 2) n 0 x0 =
        newton_loop (\<lambda>x. 2 * (x - c)) (\<lambda>x. 2) n (0 + 1) (x0 - 2 * (x0 - c) / 2)"
      using that by (intro newton_loop_continue) simp
    then show ?thesis
      unfolding upd fixed .
  qed
  from this [of 1] this [OF niter] show ?thesis
    unfolding newton_def Let_def df ddf by simp
qed

theorem newton_exact_on_quadratic_witness:
  "exact_on central_difference (\<lambda>x. (x - 7)\<^sup>2) \<and>
   exact_on central_difference (central_difference (\<lambda>x. (x - 7)\<^sup>2)) \<and> (1::int) \<le> 3 \<and>
   newton central_difference (\<lambda>x. (x - 7)\<^sup>2) (3::real) 1 = 7 \<and>
   newton central_difference (\<lambda>x. (x - 7)\<^sup>2) (3::real) 3 = 7"
proof -
  have e1: "exact_on central_difference (\<lambda>x. (x - 7)\<^sup>2)"
    unfolding exact_on_def central_difference_square by (auto intro!: derivative_eq_intros)
  have "central_difference (\<lambda>x::real. 2 * (x - 7)) = (\<lambda>x. 2)"
    by (rule ext) (simp add: central_difference_def)
  then have e2: "exact_on central_difference (central_difference (\<lambda>x. (x - 7)\<^sup>2))"
    unfolding central_difference_square exact_on_def by (auto intro!: derivative_eq_intros)
  from newton_exact_on_quadratic [OF e1 e2, of 3 3] e1 e2 show ?thesis by simp
qed

lemma spec_step_seq_one:
  fixes step0 :: "'a::monoid_mult"
  shows "spec_step_seq step0 1 k = step0"
  by (induction k) simp_all

lemma DERIV_square: "((\<lambda>x. x\<^sup>2) has_real_derivative 2 * x) (at x)"
  by (auto intro!: derivative_eq_intros)

lemma contraction_square:
  fixes x step :: real
  assumes "0 \<le> step" "step \<le> 1"
  shows "(x - 2 * x * step)\<^sup>2 \<le> x\<^sup>2"
proof -
  have "(x - 2 * x * step)\<^sup>2 = x\<^sup>2 * (1 - 2 * step)\<^sup>2"
    by (simp add: power2_eq_square algebra_simps)
  moreover have "\<bar>1 - 2 * step\<bar> \<le> 1"
    using assms by (simp add: abs_le_iff)
  then have "(1 - 2 * step)\<^sup>2 \<le> 1"
    by (simp add: abs_square_le_1)
  then have "x\<^sup>2 * (1 - 2 * step)\<^sup>2 \<le> x\<^sup>2 * 1"
    by (intro mult_left_mono) simp_all
  ultimately show ?thesis
    by simp
qed

text \<open>
  Claim C5. For \<open>f x = x\<^sup>2\<close> on the reals, with an oracle that is exact on \<open>f\<close>, decay 1 and
  a step size in \<open>[0, 1]\<close>, the objective does not increase from one iterate of \<^verbatim>\<open>gd\<close> to
  the next: \<open>f x\<^sub>i\<^sub>+\<^sub>1 \<le> f x\<^sub>i\<close> for every \<open>i \<ge> 0\<close> and every \<open>x0\<close>, where \<open>x\<^sub>i\<close> is the point \<^verbatim>\<open>gd\<close>
  returns for \<open>i\<close> iterations (by \<open>gd_loop_split\<close>, the point of every longer run at
  counter \<open>i\<close>).
\<close>

theorem gd_square_monotone:
  fixes x0 step :: real
  shows "exact_on grad (\<lambda>x. x\<^sup>2) \<Longrightarrow> 0 \<le> step \<Longrightarrow> step \<le> 1 \<Longrightarrow> 0 \<le> i \<Longrightarrow>
     (gd grad (\<lambda>x. x\<^sup>2) x0 step 1 (i + 1))\<^sup>2 \<le> (gd grad (\<lambda>x. x\<^sup>2) x0 step 1 i)\<^sup>2"
proof -
  assume e: "exact_on grad (\<lambda>x. x\<^sup>2)" and step: "0 \<le> step" "step \<le> 1" and i: "0 \<le> i"
  have df: "grad (\<lambda>x. x\<^sup>2) = (\<lambda>x. 2 * x)"
    using e by (rule exact_on_unique) (rule DERIV_square)
  have run: "gd grad (\<lambda>x. x\<^sup>2) x0 step 1 n = spec_gd_seq (\<lambda>x. 2 * x) x0 step 1 (nat n)" for n
    by (simp add: gd_def Let_def df gd_loop_state)
  have "nat (i + 1) = Suc (nat i)"
    using i by simp
  then show ?thesis
    using contraction_square [OF step] by (simp add: run spec_step_seq_one)
qed

theorem gd_square_monotone_witness:
  "exact_on central_difference (\<lambda>x. x\<^sup>2) \<and> (0::real) \<le> 1/10 \<and> (1/10::real) \<le> 1 \<and> (0::int) \<le> 2 \<and>
   (gd central_difference (\<lambda>x. x\<^sup>2) (3::real) (1/10) 1 (2 + 1))\<^sup>2
     \<le> (gd central_difference (\<lambda>x. x\<^sup>2) 3 (1/10) 1 2)\<^sup>2"
proof -
  have "central_difference (\<lambda>x::real. x\<^sup>2) = (\<lambda>x. 2 * x)"
    by (rule ext) (simp add: central_difference_def power2_eq_square algebra_simps)
  then have e: "exact_on central_difference (\<lambda>x. x\<^sup>2)"
    unfolding exact_on_def by (auto intro!: derivative_eq_intros)
  from gd_square_monotone [OF e, of "1/10" 2 3] e show ?thesis by simp
qed

end
